theory Spec2Isabelle
  imports Complex_Main
begin

section \<open>Voice analysis (main.py): a shallow embedding of analyze_voice\<close>

text \<open>
  The Python function \<open>analyze_voice(y, rate)\<close> is one straight-line body. The embedding
  keeps its statements in order and gives each stage a definition of its own.

  NumPy floating-point values are modelled as real numbers: rounding, infinities and NaN
  are outside the model. Where the Python would continue with a non-finite value (a mean
  of no frames, a division by a zero rate) the model returns the error \<open>NonFinite\<close>.
  An exception raised by NumPy is the error \<open>ValueError\<close>.
\<close>

datatype error = ValueError | NonFinite

subsection \<open>NumPy and SciPy array primitives used by the body\<close>

text \<open>\<open>np.max\<close> of an array; a zero-size array raises ValueError.\<close>

fun np_max :: "real list \<Rightarrow> error + real" where
  "np_max [] = Inl ValueError"
| "np_max (x # xs) = Inr (fold max xs x)"

text \<open>\<open>np.argmax\<close>: the first index of the largest entry; a zero-size array raises.\<close>

fun argmax_loop :: "real list \<Rightarrow> nat \<Rightarrow> nat \<Rightarrow> real \<Rightarrow> nat" where
  "argmax_loop [] i best_i best = best_i"
| "argmax_loop (x # xs) i best_i best =
     (if x > best then argmax_loop xs (Suc i) i x else argmax_loop xs (Suc i) best_i best)"

fun np_argmax :: "real list \<Rightarrow> error + nat" where
  "np_argmax [] = Inl ValueError"
| "np_argmax (x # xs) = Inr (argmax_loop xs 1 0 x)"

text \<open>
  \<open>np.mean\<close> and \<open>np.std\<close> (population standard deviation, \<open>ddof = 0\<close>). Both are
  only applied to non-empty arrays below; the callers guard the empty case.
\<close>

definition np_mean :: "real list \<Rightarrow> real" where
  "np_mean xs = sum_list xs / real (length xs)"

definition np_std :: "real list \<Rightarrow> real" where
  "np_std xs = sqrt (np_mean (map (\<lambda>x. (x - np_mean xs)\<^sup>2) xs))"

text \<open>\<open>np.clip(a, a_min, a_max)\<close> is \<open>minimum(a_max, maximum(a, a_min))\<close>.\<close>

definition np_clip :: "real \<Rightarrow> real \<Rightarrow> real \<Rightarrow> real" where
  "np_clip a a_min a_max = min a_max (max a a_min)"

text \<open>
  \<open>np.convolve(a, v, mode='valid')\<close>: either argument empty raises ValueError; when \<open>v\<close>
  is the longer one the two are swapped; the result has
  \<open>max(M, N) - min(M, N) + 1\<close> entries, entry \<open>k\<close> being the sum of the products of
  \<open>a[k], ..., a[k + len(v) - 1]\<close> with \<open>v\<close> reversed.
\<close>

definition convolve_valid :: "real list \<Rightarrow> real list \<Rightarrow> real list" where
  "convolve_valid a v =
     (let (a, v) = (if length v > length a then (v, a) else (a, v))
      in map (\<lambda>k. sum_list (map2 (*) (take (length v) (drop k a)) (rev v)))
             [0 ..< length a - length v + 1])"

definition np_convolve_valid :: "real list \<Rightarrow> real list \<Rightarrow> error + real list" where
  "np_convolve_valid a v =
     (if a = [] \<or> v = [] then Inl ValueError else Inr (convolve_valid a v))"

text \<open>
  \<open>scipy.ndimage.median_filter(input, size=5)\<close> on a one-dimensional input, with the
  defaults \<open>mode='reflect'\<close> and \<open>origin=0\<close>: the input is extended at both ends by
  reflection about the edge of the last sample (\<open>d c b a | a b c d | d c b a\<close>), the
  window of frame \<open>i\<close> holds the extended samples \<open>i - 2, ..., i + 2\<close>, and the output
  is the entry of rank \<open>5 // 2 = 2\<close> of the sorted window.
\<close>

definition reflect_index :: "nat \<Rightarrow> int \<Rightarrow> nat" where
  "reflect_index n i =
     (let j = i mod (2 * int n) in if j < int n then nat j else nat (2 * int n - 1 - j))"

definition median_filter :: "real list \<Rightarrow> real list" where
  "median_filter xs =
     map (\<lambda>i. sort (map (\<lambda>k. xs ! reflect_index (length xs) (int i + int k - 2)) [0 ..< 5]) ! 2)
         [0 ..< length xs]"

subsection \<open>The librosa and scipy.signal routines, as parameters\<close>

text \<open>
  The signal-processing routines are library code, not code of main.py; the body is
  modelled over any implementation of them.
  \<^item> \<open>piptrack y sr fmin fmax\<close> stands for \<open>librosa.piptrack\<close>. Its two matrices
    \<open>pitches\<close> and \<open>magnitudes\<close> have the same shape; they are given frame by frame,
    frame \<open>t\<close> being the list over the frequency bins \<open>i\<close> of the pairs
    \<open>(pitches[i, t], magnitudes[i, t])\<close>.
  \<^item> \<open>rms y\<close> stands for \<open>librosa.feature.rms(y=y)[0]\<close>.
  \<^item> \<open>effects_split y top_db\<close> stands for \<open>librosa.effects.split\<close>: the rows
    \<open>[start, end]\<close> of the non-silent intervals, in sample indices.
  \<^item> \<open>find_peaks x height distance\<close> stands for \<open>scipy.signal.find_peaks\<close> (its first
    result, the peak indices).
\<close>

record libs =
  piptrack :: "real list \<Rightarrow> int \<Rightarrow> real \<Rightarrow> real \<Rightarrow> (real \<times> real) list list"
  rms :: "real list \<Rightarrow> real list"
  effects_split :: "real list \<Rightarrow> real \<Rightarrow> (int \<times> int) list"
  find_peaks :: "real list \<Rightarrow> real \<Rightarrow> nat \<Rightarrow> nat list"

subsection \<open>Normalisation (line 17)\<close>

definition normalize :: "real list \<Rightarrow> error + real list" where
  "normalize y =
     (case np_max (map abs y) of
        Inl e \<Rightarrow> Inl e
      | Inr peak \<Rightarrow> Inr (map (\<lambda>s. s / (peak + 0.00001)) y))"

subsection \<open>Pitch values (lines 20 to 31)\<close>

text \<open>The loop over the frames: the pitch of the strongest bin is kept when above 50.\<close>

fun pitch_loop :: "(real \<times> real) list list \<Rightarrow> real list \<Rightarrow> error + real list" where
  "pitch_loop [] pitch_values = Inr pitch_values"
| "pitch_loop (frame # frames) pitch_values =
     (case np_argmax (map snd frame) of
        Inl e \<Rightarrow> Inl e
      | Inr index \<Rightarrow>
          (let pitch = fst (frame ! index)
           in if pitch > 50 then pitch_loop frames (pitch_values @ [pitch])
              else pitch_loop frames pitch_values))"

definition smooth :: "real list \<Rightarrow> real list" where
  "smooth pitch_values =
     (if length pitch_values > 5 then median_filter pitch_values else pitch_values)"

subsection \<open>Pauses (lines 39 to 46)\<close>

text \<open>
  The loop \<open>for i in range(1, len(non_silent))\<close>, on the pair
  \<open>(pause_count, total_silence_duration)\<close>. The interval bounds are integers, the rate
  is an integer, and \<open>/\<close> is true division.
\<close>

definition pause_step ::
  "(int \<times> int) list \<Rightarrow> int \<Rightarrow> nat \<Rightarrow> nat \<times> real \<Rightarrow> nat \<times> real" where
  "pause_step non_silent rate i acc =
     (let gap = real_of_int (fst (non_silent ! i) - snd (non_silent ! (i - 1))) / real_of_int rate
      in if gap > 0.25 then (fst acc + 1, snd acc + gap) else acc)"

definition detect_pauses :: "(int \<times> int) list \<Rightarrow> int \<Rightarrow> nat \<times> real" where
  "detect_pauses non_silent rate =
     fold (pause_step non_silent rate) [1 ..< length non_silent] (0, 0)"

subsection \<open>Envelope peaks (lines 49 and 50)\<close>

text \<open>\<open>np.ones(1000)/1000\<close> is the moving-average kernel.\<close>

definition filler_peaks :: "libs \<Rightarrow> real list \<Rightarrow> error + nat list" where
  "filler_peaks L y =
     (case np_convolve_valid (map abs y) (replicate 1000 (1 / 1000)) of
        Inl e \<Rightarrow> Inl e
      | Inr smoothed \<Rightarrow> Inr (find_peaks L smoothed 0.01 1000))"

subsection \<open>Feature extraction (lines 17 to 51)\<close>

text \<open>
  The values the body has computed when it reaches line 53, where it prints them.
  Two places leave the real numbers: \<open>np.mean\<close> of an energy series without frames
  is NaN, and a gap divided by the rate 0 is infinite or NaN (the division is reached
  when there are two spans or more).
\<close>

record feature_summary =
  pitch_mean :: real
  pitch_std :: real
  energy_mean :: real
  energy_std :: real
  pause_count :: nat
  total_silence_duration :: real
  filler_count :: nat

definition features :: "libs \<Rightarrow> real list \<Rightarrow> int \<Rightarrow> error + feature_summary" where
  "features L y0 rate =
     (case normalize y0 of
        Inl e \<Rightarrow> Inl e
      | Inr y \<Rightarrow>
     (case pitch_loop (piptrack L y rate 80 600) [] of
        Inl e \<Rightarrow> Inl e
      | Inr pitch_values \<Rightarrow>
     (let pitch_values = smooth pitch_values;
          p_std = (if length pitch_values > 0 then np_std pitch_values else 0);
          p_mean = (if length pitch_values > 0 then np_mean pitch_values else 0);
          energy = rms L y
      in if energy = [] then Inl NonFinite
         else
     (let e_mean = np_mean energy;
          e_std = np_std energy;
          non_silent = effects_split L y 30
      in if rate = 0 \<and> length non_silent > 1 then Inl NonFinite
         else
     (let (pauses, silence) = detect_pauses non_silent rate
      in case filler_peaks L y of
           Inl e \<Rightarrow> Inl e
         | Inr peaks \<Rightarrow>
             Inr \<lparr> pitch_mean = p_mean, pitch_std = p_std,
                      energy_mean = e_mean, energy_std = e_std,
                      pause_count = pauses, total_silence_duration = silence,
                      filler_count = length peaks div 30 \<rparr>)))))"

subsection \<open>Scoring (lines 60 to 72)\<close>

text \<open>
  The score reads four of the feature values. \<open>filler_count\<close> and \<open>pause_count\<close> are
  non-negative Python integers, and \<open>/\<close> is true division.
\<close>

definition confidence_score_of :: "real \<Rightarrow> real \<Rightarrow> nat \<Rightarrow> nat \<Rightarrow> real" where
  "confidence_score_of p_std e_mean fillers pauses =
     (let normalized_pitch_std = np_clip (p_std / 50) 0 1;
          normalized_energy = np_clip (e_mean * 50) 0 1;
          normalized_fillers = np_clip (real fillers / 10) 0 1;
          normalized_pauses = np_clip (real pauses / 5) 0 1;
          confidence_score = 100;
          confidence_score = confidence_score - normalized_pitch_std * 20;
          confidence_score = confidence_score - (1 - normalized_energy) * 25;
          confidence_score = confidence_score - normalized_fillers * 30;
          confidence_score = confidence_score - normalized_pauses * 25
      in max confidence_score 0)"

subsection \<open>Level (lines 75 to 80)\<close>

definition confidence_level_of :: "real \<Rightarrow> string" where
  "confidence_level_of confidence_score =
     (if confidence_score \<ge> 75 then ''Confident''
      else if confidence_score \<ge> 50 then ''Moderate''
      else ''Needs Improvement'')"

subsection \<open>Suggestions (lines 83 to 91)\<close>

definition msg_pitch :: string where
  "msg_pitch = ''Increase pitch variation to sound more engaging.''"

definition msg_energy :: string where
  "msg_energy = ''Speak with more volume and energy.''"

definition msg_filler :: string where
  "msg_filler = ''Practice reducing filler words like 'um' and 'uh'.''"

definition msg_pause :: string where
  "msg_pause = ''Minimize long pauses for smoother delivery.''"

definition suggestions_of :: "real \<Rightarrow> real \<Rightarrow> nat \<Rightarrow> nat \<Rightarrow> string list" where
  "suggestions_of p_std e_mean fillers pauses =
     (let suggestions = [];
          suggestions = (if p_std < 20 then suggestions @ [msg_pitch] else suggestions);
          suggestions = (if e_mean < 0.02 then suggestions @ [msg_energy] else suggestions);
          suggestions = (if fillers \<ge> 3 then suggestions @ [msg_filler] else suggestions);
          suggestions = (if pauses \<ge> 3 then suggestions @ [msg_pause] else suggestions)
      in suggestions)"

subsection \<open>The returned tuple (lines 93 and 94)\<close>

record analysis_result =
  confidence_level :: string
  confidence_score :: real
  suggestions :: "string list"
  res_pitch_mean :: real
  res_pitch_std :: real
  res_energy_mean :: real
  res_energy_std :: real
  res_pause_count :: nat
  res_filler_count :: nat

definition assess :: "feature_summary \<Rightarrow> analysis_result" where
  "assess fs =
     (let score = confidence_score_of (pitch_std fs) (energy_mean fs)
                                      (filler_count fs) (pause_count fs)
      in \<lparr> confidence_level = confidence_level_of score,
           confidence_score = score,
           suggestions = suggestions_of (pitch_std fs) (energy_mean fs)
                                        (filler_count fs) (pause_count fs),
           res_pitch_mean = pitch_mean fs, res_pitch_std = pitch_std fs,
           res_energy_mean = energy_mean fs, res_energy_std = energy_std fs,
           res_pause_count = pause_count fs, res_filler_count = filler_count fs \<rparr>)"

definition analyze_voice :: "libs \<Rightarrow> real list \<Rightarrow> int \<Rightarrow> error + analysis_result" where
  "analyze_voice L y rate =
     (case features L y rate of Inl e \<Rightarrow> Inl e | Inr fs \<Rightarrow> Inr (assess fs))"

section \<open>Notions of the specification\<close>

text \<open>Clipping to the unit interval, by cases.\<close>

definition clip01 :: "real \<Rightarrow> real" where
  "clip01 x = (if x < 0 then 0 else if 1 < x then 1 else x)"

text \<open>
  The gap durations between temporally adjacent voiced spans: start of the next span
  minus end of the previous one, divided by the sample rate.
\<close>

definition adjacent_gaps :: "(int \<times> int) list \<Rightarrow> int \<Rightarrow> real list" where
  "adjacent_gaps spans rate =
     map (\<lambda>(prev, next). real_of_int (fst next - snd prev) / real_of_int rate)
         (zip spans (tl spans))"

text \<open>
  The suggestion rules as a table: the threshold tests in their fixed order, each with
  its message.
\<close>

definition suggestion_rules :: "real \<Rightarrow> real \<Rightarrow> nat \<Rightarrow> nat \<Rightarrow> (bool \<times> string) list" where
  "suggestion_rules p_std e_mean fillers pauses =
     [(p_std < 20, msg_pitch), (e_mean < 0.02, msg_energy),
      (fillers \<ge> 3, msg_filler), (pauses \<ge> 3, msg_pause)]"

text \<open>The body of the pause loop, as a function of the gap duration.\<close>

definition gap_step :: "real \<Rightarrow> nat \<times> real \<Rightarrow> nat \<times> real" where
  "gap_step gap acc = (if gap > 0.25 then (fst acc + 1, snd acc + gap) else acc)"

text \<open>
  A median filter whose edge frames use only the available part of the window, without
  padding: frame \<open>i\<close> of a series of \<open>n\<close> entries sees the entries
  \<open>max(0, i - 2), ..., min(n - 1, i + 2)\<close>. A window of even size has two middle
  entries; the three usual conventions for its median are the lower one, the upper one
  and their mean.
\<close>

definition subwindow :: "real list \<Rightarrow> nat \<Rightarrow> real list" where
  "subwindow xs i = take (min (length xs) (i + 3) - (i - 2)) (drop (i - 2) xs)"

definition lower_median :: "real list \<Rightarrow> real" where
  "lower_median ws = sort ws ! ((length ws - 1) div 2)"

definition upper_median :: "real list \<Rightarrow> real" where
  "upper_median ws = sort ws ! (length ws div 2)"

definition mean_median :: "real list \<Rightarrow> real" where
  "mean_median ws = (lower_median ws + upper_median ws) / 2"

definition subwindow_median_filter :: "(real list \<Rightarrow> real) \<Rightarrow> real list \<Rightarrow> real list" where
  "subwindow_median_filter med xs =
     (if length xs > 5 then map (\<lambda>i. med (subwindow xs i)) [0 ..< length xs] else xs)"

text \<open>The median of five values: the third smallest.\<close>

definition median5 :: "real \<Rightarrow> real \<Rightarrow> real \<Rightarrow> real \<Rightarrow> real \<Rightarrow> real" where
  "median5 a b c d e = sort [a, b, c, d, e] ! 2"

section \<open>Library answers for concrete runs\<close>

text \<open>
  Answers of the library routines on a silent buffer: every pitch and magnitude is zero,
  every energy frame is zero, the whole buffer is one interval (relative to its own
  peak, silence is at 0 dB, above the threshold of -30 dB), and only samples at or
  above the height are peaks.
\<close>

definition silent_libs :: libs where
  "silent_libs =
     \<lparr> piptrack = (\<lambda>y sr fmin fmax. replicate 2 [(0, 0), (0, 0), (0, 0)]),
       rms = (\<lambda>y. [0, 0]),
       effects_split = (\<lambda>y top_db. [(0, int (length y))]),
       find_peaks = (\<lambda>x height distance. filter (\<lambda>i. height \<le> x ! i) [0 ..< length x]) \<rparr>"

text \<open>
  Fixed answers for a voiced recording: two frames with a pitch of 120 Hz, a steady
  energy, two spans 9000 samples apart, and \<open>k\<close> envelope peaks 1000 samples apart.
\<close>

definition voiced_libs :: "nat \<Rightarrow> libs" where
  "voiced_libs k =
     \<lparr> piptrack = (\<lambda>y sr fmin fmax.
                     [[(0, 0.1), (120, 0.9)], [(0, 0.2), (0, 0.1)], [(120, 1), (90, 0.5)]]),
       rms = (\<lambda>y. [0.1, 0.1]),
       effects_split = (\<lambda>y top_db. [(0, 1000), (10000, 20000)]),
       find_peaks = (\<lambda>x height distance. map (\<lambda>j. 1000 * j) [0 ..< k]) \<rparr>"

section \<open>Properties\<close>

subsection \<open>Scoring\<close>

lemma np_clip_01: "np_clip x 0 1 = clip01 x"
  by (simp add: np_clip_def clip01_def min_def max_def)

lemma clip01_bounds: "0 \<le> clip01 x" "clip01 x \<le> 1"
  by (simp_all add: clip01_def)

lemma clip01_mono: "x \<le> y \<Longrightarrow> clip01 x \<le> clip01 y"
  by (simp add: clip01_def)

text \<open>
  C1. For every feature summary the confidence score is
  \<open>max(0, 100 - clip(pitch_std/50, 0, 1)*20 - (1 - clip(energy_mean*50, 0, 1))*25
  - clip(filler_count/10, 0, 1)*30 - clip(pause_count/5, 0, 1)*25)\<close>,
  a function of these four feature values alone.
\<close>

theorem confidence_score_formula:
  "confidence_score_of p_std e_mean fillers pauses =
     max 0 (100 - clip01 (p_std / 50) * 20
                - (1 - clip01 (e_mean * 50)) * 25
                - clip01 (real fillers / 10) * 30
                - clip01 (real pauses / 5) * 25)"
  by (simp add: confidence_score_of_def Let_def np_clip_01 max.commute)

text \<open>
  C2. The confidence score lies in \<open>[0, 100]\<close>; with the other inputs fixed it is
  non-increasing in \<open>filler_count\<close>, in \<open>pause_count\<close> and in \<open>pitch_std\<close>, and
  non-decreasing in \<open>energy_mean\<close>.
\<close>

theorem confidence_score_range_monotone:
  "0 \<le> confidence_score_of p e f q \<and> confidence_score_of p e f q \<le> 100 \<and>
   (f \<le> f' \<longrightarrow> confidence_score_of p e f' q \<le> confidence_score_of p e f q) \<and>
   (q \<le> q' \<longrightarrow> confidence_score_of p e f q' \<le> confidence_score_of p e f q) \<and>
   (p \<le> p' \<longrightarrow> confidence_score_of p' e f q \<le> confidence_score_of p e f q) \<and>
   (e \<le> e' \<longrightarrow> confidence_score_of p e f q \<le> confidence_score_of p e' f q)"
proof -
  have eq: "\<And>p e f q. confidence_score_of p e f q =
      max (100 - clip01 (p / 50) * 20 - (1 - clip01 (e * 50)) * 25
               - clip01 (real f / 10) * 30 - clip01 (real q / 5) * 25) 0"
    by (simp add: confidence_score_of_def Let_def np_clip_01)
  have lo: "0 \<le> confidence_score_of p e f q"
    by (simp add: eq)
  have hi: "confidence_score_of p e f q \<le> 100"
    using clip01_bounds [of "p / 50"] clip01_bounds [of "e * 50"]
      clip01_bounds [of "real f / 10"] clip01_bounds [of "real q / 5"]
    by (simp add: eq)
  have mf: "confidence_score_of p e f' q \<le> confidence_score_of p e f q" if "f \<le> f'"
  proof -
    have "clip01 (real f / 10) \<le> clip01 (real f' / 10)"
      using that by (intro clip01_mono) simp
    then show ?thesis unfolding eq by (intro max.mono) simp_all
  qed
  have mq: "confidence_score_of p e f q' \<le> confidence_score_of p e f q" if "q \<le> q'"
  proof -
    have "clip01 (real q / 5) \<le> clip01 (real q' / 5)"
      using that by (intro clip01_mono) simp
    then show ?thesis unfolding eq by (intro max.mono) simp_all
  qed
  have mp: "confidence_score_of p' e f q \<le> confidence_score_of p e f q" if "p \<le> p'"
  proof -
    have "clip01 (p / 50) \<le> clip01 (p' / 50)"
      using that by (intro clip01_mono) simp
    then show ?thesis unfolding eq by (intro max.mono) simp_all
  qed
  have me: "confidence_score_of p e f q \<le> confidence_score_of p e' f q" if "e \<le> e'"
  proof -
    have "clip01 (e * 50) \<le> clip01 (e' * 50)"
      using that by (intro clip01_mono) simp
    then show ?thesis unfolding eq by (intro max.mono) simp_all
  qed
  from lo hi mf mq mp me show ?thesis by blast
qed

theorem confidence_score_range_monotone_witness:
  "(2::nat) \<le> 7 \<and> (1::nat) \<le> 4 \<and> (10::real) \<le> 30 \<and> (0.004::real) \<le> 0.01 \<and>
   0 \<le> confidence_score_of 10 0.004 2 1 \<and> confidence_score_of 10 0.004 2 1 \<le> 100 \<and>
   confidence_score_of 10 0.004 7 1 \<le> confidence_score_of 10 0.004 2 1 \<and>
   confidence_score_of 10 0.004 2 4 \<le> confidence_score_of 10 0.004 2 1 \<and>
   confidence_score_of 30 0.004 2 1 \<le> confidence_score_of 10 0.004 2 1 \<and>
   confidence_score_of 10 0.004 2 1 \<le> confidence_score_of 10 0.01 2 1"
  using confidence_score_range_monotone [of 10 "0.004" 2 1 7 4 30 "0.01"] by simp

subsection \<open>Level\<close>

text \<open>
  C3. The level is a step function of the score: at least 75 gives "Confident", from 50
  up to but excluding 75 gives "Moderate", below 50 gives "Needs Improvement"; the score
  75 is "Confident" and the score 74.999 is "Moderate".
\<close>

theorem confidence_level_step:
  "(75 \<le> s \<longrightarrow> confidence_level_of s = ''Confident'') \<and>
   (50 \<le> s \<and> s < 75 \<longrightarrow> confidence_level_of s = ''Moderate'') \<and>
   (s < 50 \<longrightarrow> confidence_level_of s = ''Needs Improvement'') \<and>
   confidence_level_of 75 = ''Confident'' \<and>
   confidence_level_of 74.999 = ''Moderate''"
  by (simp add: confidence_level_of_def)

theorem confidence_level_step_witness:
  "(75::real) \<le> 80 \<and> confidence_level_of 80 = ''Confident'' \<and>
   (50::real) \<le> 60 \<and> (60::real) < 75 \<and> confidence_level_of 60 = ''Moderate'' \<and>
   (30::real) < 50 \<and> confidence_level_of 30 = ''Needs Improvement''"
  using confidence_level_step [of 80] confidence_level_step [of 60]
    confidence_level_step [of 30]
  by simp

subsection \<open>Suggestions\<close>

lemma msgs_distinct: "distinct [msg_pitch, msg_energy, msg_filler, msg_pause]"
  by (simp add: msg_pitch_def msg_energy_def msg_filler_def msg_pause_def)

text \<open>
  C7. The suggestion list holds exactly the messages whose threshold test holds, in the
  fixed order \<open>pitch_std < 20\<close>, \<open>energy_mean < 0.02\<close>, \<open>filler_count \<ge> 3\<close>,
  \<open>pause_count \<ge> 3\<close>. The tests are independent: every one of the sixteen outcomes
  of the four tests occurs for some feature values. When no test holds the list is empty.
\<close>

theorem suggestions_rule_table:
  "suggestions_of p e f q = map snd (filter fst (suggestion_rules p e f q)) \<and>
   (msg_pitch \<in> set (suggestions_of p e f q) \<longleftrightarrow> p < 20) \<and>
   (msg_energy \<in> set (suggestions_of p e f q) \<longleftrightarrow> e < 0.02) \<and>
   (msg_filler \<in> set (suggestions_of p e f q) \<longleftrightarrow> 3 \<le> f) \<and>
   (msg_pause \<in> set (suggestions_of p e f q) \<longleftrightarrow> 3 \<le> q) \<and>
   (\<forall>b1 b2 b3 b4. \<exists>p' e' f' q'.
      map fst (suggestion_rules p' e' f' q') = [b1, b2, b3, b4]) \<and>
   (\<not> p < 20 \<and> \<not> e < 0.02 \<and> \<not> 3 \<le> f \<and> \<not> 3 \<le> q \<longrightarrow> suggestions_of p e f q = [])"
proof -
  have tab: "suggestions_of p e f q = map snd (filter fst (suggestion_rules p e f q))"
    by (simp add: suggestions_of_def suggestion_rules_def Let_def)
  have mem: "(msg_pitch \<in> set (suggestions_of p e f q) \<longleftrightarrow> p < 20) \<and>
   (msg_energy \<in> set (suggestions_of p e f q) \<longleftrightarrow> e < 0.02) \<and>
   (msg_filler \<in> set (suggestions_of p e f q) \<longleftrightarrow> 3 \<le> f) \<and>
   (msg_pause \<in> set (suggestions_of p e f q) \<longleftrightarrow> 3 \<le> q)"
    using msgs_distinct by (auto simp add: suggestions_of_def Let_def)
  have sub: "\<exists>p' e' f' q'. map fst (suggestion_rules p' e' f' q') = [b1, b2, b3, b4]"
    for b1 b2 b3 b4
  proof -
    have "map fst (suggestion_rules (if b1 then 0 else 20) (if b2 then 0 else 1)
            (if b3 then 3 else 0) (if b4 then 3 else 0)) = [b1, b2, b3, b4]"
      by (simp add: suggestion_rules_def)
    then show ?thesis by (intro exI)
  qed
  have none: "\<not> p < 20 \<and> \<not> e < 0.02 \<and> \<not> 3 \<le> f \<and> \<not> 3 \<le> q \<longrightarrow> suggestions_of p e f q = []"
    by (simp add: suggestions_of_def Let_def)
  from tab mem sub none show ?thesis by blast
qed

theorem suggestions_rule_table_witness:
  "\<not> (25::real) < 20 \<and> \<not> (0.5::real) < 0.02 \<and> \<not> (3::nat) \<le> 1 \<and> \<not> (3::nat) \<le> 2 \<and>
   suggestions_of 25 0.5 1 2 = []"
proof -
  have h: "\<not> (25::real) < 20 \<and> \<not> (0.5::real) < 0.02 \<and> \<not> (3::nat) \<le> 1 \<and> \<not> (3::nat) \<le> 2"
    by simp
  with suggestions_rule_table [of 25 "0.5" 1 2]
  have "suggestions_of 25 0.5 1 2 = []" by blast
  with h show ?thesis by blast
qed

subsection \<open>Normalisation\<close>

lemma np_max_Max: "xs \<noteq> [] \<Longrightarrow> np_max xs = Inr (Max (set xs))"
  by (cases xs) (simp_all add: Max.set_eq_fold [symmetric])

lemma peak_bounds:
  assumes "y \<noteq> []"
  shows "np_max (map abs y) = Inr (Max (set (map abs y)))"
    and "0 \<le> Max (set (map abs y))"
    and "\<And>s. s \<in> set y \<Longrightarrow> \<bar>s\<bar> \<le> Max (set (map abs y))"
proof -
  from assms show "np_max (map abs y) = Inr (Max (set (map abs y)))"
    by (simp add: np_max_Max)
  show le: "\<bar>s\<bar> \<le> Max (set (map abs y))" if "s \<in> set y" for s
    using that by (intro Max_ge) auto
  from assms obtain s where "s \<in> set y" by (cases y) auto
  from le [OF this] show "0 \<le> Max (set (map abs y))" by linarith
qed

lemma normalize_empty: "normalize [] = Inl ValueError"
  by (simp add: normalize_def)

text \<open>
  C4. For a sample buffer (non-empty, as the data model requires; \<open>np.max\<close> raises on an
  empty one) the normaliser divides each sample by the peak absolute amplitude plus
  \<open>0.00001\<close>. This divisor is positive, so there is no division by zero, also on an
  all-zero input. The output has peak absolute amplitude at most 1, and it is all-zero if
  and only if the input is.
\<close>

theorem normalize_peak_and_zero:
  assumes "y \<noteq> []"
  shows "\<exists>peak out p.
           np_max (map abs y) = Inr peak \<and> 0 < peak + 0.00001 \<and>
           normalize y = Inr out \<and> out = map (\<lambda>s. s / (peak + 0.00001)) y \<and>
           np_max (map abs out) = Inr p \<and> p \<le> 1 \<and>
           (\<forall>v \<in> set out. \<bar>v\<bar> \<le> 1) \<and>
           ((\<forall>v \<in> set out. v = 0) \<longleftrightarrow> (\<forall>s \<in> set y. s = 0))"
proof -
  define peak where "peak = Max (set (map abs y))"
  define out where "out = map (\<lambda>s. s / (peak + 0.00001)) y"
  have pk: "np_max (map abs y) = Inr peak" and nonneg: "0 \<le> peak"
    and le: "\<And>s. s \<in> set y \<Longrightarrow> \<bar>s\<bar> \<le> peak"
    using peak_bounds [OF assms] by (simp_all add: peak_def)
  have pos: "0 < peak + 0.00001" using nonneg by simp
  have norm: "normalize y = Inr out"
    by (simp add: normalize_def pk out_def)
  have bound: "\<bar>v\<bar> \<le> 1" if "v \<in> set out" for v
  proof -
    from that obtain s where s: "s \<in> set y" and v: "v = s / (peak + 0.00001)"
      by (auto simp: out_def)
    have "\<bar>s\<bar> \<le> peak + 0.00001" using le [OF s] by simp
    with pos show ?thesis by (simp add: v abs_divide)
  qed
  have ne: "out \<noteq> []" using assms by (simp add: out_def)
  have pk_out: "np_max (map abs out) = Inr (Max (set (map abs out)))"
    using ne by (simp add: np_max_Max)
  have "Max (set (map abs out)) \<le> 1"
    using ne bound by (subst Max_le_iff) auto
  moreover have "(\<forall>v \<in> set out. v = 0) \<longleftrightarrow> (\<forall>s \<in> set y. s = 0)"
    using pos by (auto simp: out_def)
  ultimately show ?thesis
    using pk pos norm pk_out bound out_def by blast
qed

theorem normalize_peak_and_zero_witness:
  "[3, - 4, 0 :: real] \<noteq> [] \<and>
   np_max (map abs [3, - 4, 0]) = Inr 4 \<and>
   normalize [3, - 4, 0] = Inr [300000 / 400001, - (400000 / 400001), 0] \<and>
   np_max (map abs [300000 / 400001, - (400000 / 400001), 0]) = Inr (400000 / 400001) \<and>
   (400000 / 400001 :: real) \<le> 1 \<and>
   [0, 0 :: real] \<noteq> [] \<and> normalize [0, 0] = Inr [0, 0]"
proof -
  have h: "[3, - 4, 0 :: real] \<noteq> []" and z: "[0, 0 :: real] \<noteq> []" by simp_all
  from normalize_peak_and_zero [OF h] obtain peak out p where
    pk: "np_max (map abs [3, - 4, 0]) = Inr peak"
    and n: "normalize [3, - 4, 0] = Inr out"
    and o: "out = map (\<lambda>s. s / (peak + 0.00001)) [3, - 4, 0]"
    and po: "np_max (map abs out) = Inr p" and le: "p \<le> 1"
    by blast
  from pk have peak: "peak = 4" by simp
  with o have out: "out = [300000 / 400001, - (400000 / 400001), 0]" by simp
  from po have p: "p = 400000 / 400001" by (simp add: out)
  from normalize_peak_and_zero [OF z] obtain out0 where
    n0: "normalize [0, 0] = Inr out0" and z0: "(\<forall>v \<in> set out0. v = 0)" and "length out0 = 2"
    by auto
  then have "out0 = [0, 0]" by (cases out0; cases "tl out0") auto
  with h z pk peak n out po p le n0 show ?thesis by simp
qed

subsection \<open>Pauses\<close>

lemma pause_step_gap:
  "pause_step ns rate =
     (\<lambda>i. gap_step (real_of_int (fst (ns ! i) - snd (ns ! (i - 1))) / real_of_int rate))"
  by (intro ext) (simp add: pause_step_def gap_step_def Let_def)

lemma gaps_by_index:
  "map (\<lambda>i. real_of_int (fst (ns ! i) - snd (ns ! (i - 1))) / real_of_int rate)
       [1 ..< length ns] = adjacent_gaps ns rate"
proof (rule nth_equalityI)
  show "length (map (\<lambda>i. real_of_int (fst (ns ! i) - snd (ns ! (i - 1))) / real_of_int rate)
       [1 ..< length ns]) = length (adjacent_gaps ns rate)"
    by (simp add: adjacent_gaps_def)
next
  fix i
  assume "i < length (map (\<lambda>i. real_of_int (fst (ns ! i) - snd (ns ! (i - 1))) / real_of_int rate)
       [1 ..< length ns])"
  then have i: "i < length ns - 1" by simp
  then show "map (\<lambda>i. real_of_int (fst (ns ! i) - snd (ns ! (i - 1))) / real_of_int rate)
       [1 ..< length ns] ! i = adjacent_gaps ns rate ! i"
    by (simp add: adjacent_gaps_def nth_tl)
qed

lemma fold_gap_step:
  "fold gap_step gs (c, t) =
     (c + length (filter (\<lambda>g. 0.25 < g) gs), t + sum_list (filter (\<lambda>g. 0.25 < g) gs))"
  by (induction gs arbitrary: c t) (simp_all add: gap_step_def)

lemma detect_pauses_closed:
  "detect_pauses ns rate =
     (length (filter (\<lambda>g. 0.25 < g) (adjacent_gaps ns rate)),
      sum_list (filter (\<lambda>g. 0.25 < g) (adjacent_gaps ns rate)))"
proof -
  let ?G = "\<lambda>i. real_of_int (fst (ns ! i) - snd (ns ! (i - 1))) / real_of_int rate"
  have "detect_pauses ns rate = fold (\<lambda>i. gap_step (?G i)) [1 ..< length ns] (0, 0)"
    by (simp only: detect_pauses_def pause_step_gap)
  also have "\<dots> = fold gap_step (map ?G [1 ..< length ns]) (0, 0)"
    by (simp only: fold_map comp_def)
  also have "\<dots> = fold gap_step (adjacent_gaps ns rate) (0, 0)"
    by (simp only: gaps_by_index)
  finally show ?thesis
    by (simp only: fold_gap_step add_0)
qed

lemma detect_pauses_short: "length ns \<le> 1 \<Longrightarrow> detect_pauses ns rate = (0, 0)"
  by (simp add: detect_pauses_def)

text \<open>
  C5. For every ordered list of voiced spans (and a sample rate other than 0), the pause
  count is the number of gaps between adjacent spans whose duration, start of the next
  span minus end of the previous one divided by the rate, is strictly above 0.25, and
  the total silence is the sum of exactly these durations. With zero or one span both
  are 0.
\<close>

theorem pauses_count_gaps_over_quarter_second:
  assumes "rate \<noteq> 0"
  shows "detect_pauses spans rate =
     (length (filter (\<lambda>g. 0.25 < g) (adjacent_gaps spans rate)),
      sum_list (filter (\<lambda>g. 0.25 < g) (adjacent_gaps spans rate))) \<and>
   (length spans \<le> 1 \<longrightarrow> detect_pauses spans rate = (0, 0))"
  using detect_pauses_closed [of spans rate] detect_pauses_short [of spans rate] by blast

theorem pauses_count_gaps_over_quarter_second_witness:
  "(22050::int) \<noteq> 0 \<and> (4::int) \<noteq> 0 \<and>
   detect_pauses [(0, 1000), (10000, 20000), (20100, 30000), (52050, 60000)] 22050
     = (2, 69 / 49) \<and>
   detect_pauses [(0, 10), (11, 20)] 4 = (0, 0) \<and>
   length [(0::int, 1000::int)] \<le> 1 \<and> detect_pauses [(0, 1000)] 22050 = (0, 0)"
  using pauses_count_gaps_over_quarter_second
          [of 22050 "[(0, 1000), (10000, 20000), (20100, 30000), (52050, 60000)]"]
        pauses_count_gaps_over_quarter_second [of 4 "[(0, 10), (11, 20)]"]
        pauses_count_gaps_over_quarter_second [of 22050 "[(0, 1000)]"]
  by (simp add: adjacent_gaps_def)

lemma sum_over_quarter:
  fixes gs :: "real list"
  shows "(\<forall>g \<in> set gs. 0.25 < g) \<Longrightarrow> gs \<noteq> [] \<Longrightarrow> 0.25 * real (length gs) < sum_list gs"
proof (induction gs)
  case Nil
  then show ?case by simp
next
  case (Cons g gs)
  show ?case
  proof (cases "gs = []")
    case True
    with Cons.prems show ?thesis by simp
  next
    case False
    with Cons have "0.25 * real (length gs) < sum_list gs" by simp
    moreover from Cons.prems have "0.25 < g" by simp
    ultimately show ?thesis by (simp add: algebra_simps)
  qed
qed

text \<open>
  C10. After pause detection the two results are linked: the total silence is 0 when the
  pause count is 0, and it is strictly above 0.25 times the pause count when the pause
  count is positive.
\<close>

theorem pause_count_bounds_silence:
  assumes "rate \<noteq> 0" and "detect_pauses spans rate = (pauses, silence)"
  shows "(pauses = 0 \<longrightarrow> silence = 0) \<and> (0 < pauses \<longrightarrow> 0.25 * real pauses < silence)"
proof -
  define gs where "gs = filter (\<lambda>g. 0.25 < g) (adjacent_gaps spans rate)"
  from assms(2) have p: "pauses = length gs" and s: "silence = sum_list gs"
    by (simp_all add: detect_pauses_closed gs_def)
  have all: "\<forall>g \<in> set gs. 0.25 < g" by (simp add: gs_def)
  show ?thesis
  proof (cases "gs = []")
    case True
    then show ?thesis by (simp add: p s)
  next
    case False
    from sum_over_quarter [OF all False] show ?thesis by (simp add: p s)
  qed
qed

theorem pause_count_bounds_silence_witness:
  "(22050::int) \<noteq> 0 \<and>
   detect_pauses [(0, 1000), (10000, 20000), (20100, 30000), (52050, 60000)] 22050
     = (2, 69 / 49) \<and>
   0 < (2::nat) \<and> 0.25 * real (2::nat) < (69 / 49 :: real) \<and>
   detect_pauses [(0, 1000), (1100, 2000)] 22050 = (0, 0) \<and> (0::nat) = 0 \<and> (0::real) = 0"
proof -
  have r: "(22050::int) \<noteq> 0" by simp
  have d: "detect_pauses [(0, 1000), (10000, 20000), (20100, 30000), (52050, 60000)] 22050
             = (2, 69 / 49)"
    by (simp add: detect_pauses_closed adjacent_gaps_def)
  have z: "detect_pauses [(0, 1000), (1100, 2000)] 22050 = (0, 0)"
    by (simp add: detect_pauses_closed adjacent_gaps_def)
  have p: "0 < (2::nat)" by simp
  from pause_count_bounds_silence [OF r d] p
  have "0.25 * real (2::nat) < (69 / 49 :: real)" by blast
  moreover from pause_count_bounds_silence [OF r z]
  have "(0::real) = 0" by blast
  ultimately show ?thesis using r d z p by blast
qed

subsection \<open>Pitch smoothing\<close>

lemma smooth_example: "smooth [9, 1, 2, 3, 4, 5, 0] = [2, 3, 3, 3, 3, 3, 4]"
  by (simp add: smooth_def median_filter_def reflect_index_def upt_rec)

lemma upt7: "[0 ..< 7] = [0, 1, 2, 3, 4, 5, 6]"
  by (simp add: upt_rec)

text \<open>
  On the series \<open>9, 1, 2, 3, 4, 5, 0\<close> the smoothed pitch values differ from a median
  filter over truncated windows, whichever convention is taken for the median of a
  window of four: frame 1 gives the upper middle entry 3 of \<open>9, 1, 2, 3\<close>, frame 5 the
  lower middle entry 3 of \<open>3, 4, 5, 0\<close>.
\<close>

theorem smooth_not_subwindow_median:
  "smooth [9, 1, 2, 3, 4, 5, 0] \<noteq> subwindow_median_filter lower_median [9, 1, 2, 3, 4, 5, 0] \<and>
   smooth [9, 1, 2, 3, 4, 5, 0] \<noteq> subwindow_median_filter upper_median [9, 1, 2, 3, 4, 5, 0] \<and>
   smooth [9, 1, 2, 3, 4, 5, 0] \<noteq> subwindow_median_filter mean_median [9, 1, 2, 3, 4, 5, 0]"
  by (simp add: smooth_example subwindow_median_filter_def subwindow_def upt7
        lower_median_def upper_median_def mean_median_def)

text \<open>
  Nor is the edge output a function of the entries in the truncated window taken as a
  collection: two series whose windows at frame 1 hold the same entries in another order
  give different outputs there.
\<close>

lemma smooth_edge_depends_on_order:
  "sort (subwindow [1, 2, 3, 4, 9, 9] 1) = sort (subwindow [4, 2, 3, 1, 9, 9] 1) \<and>
   smooth [1, 2, 3, 4, 9, 9] ! 1 = 2 \<and> smooth [4, 2, 3, 1, 9, 9] ! 1 = 3"
  by (simp add: subwindow_def smooth_def median_filter_def reflect_index_def upt_rec)

lemma reflect_index_inside: "0 \<le> i \<Longrightarrow> i < int n \<Longrightarrow> reflect_index n i = nat i"
  by (simp add: reflect_index_def)

lemma reflect_index_before:
  "i < 0 \<Longrightarrow> - int n \<le> i \<Longrightarrow> reflect_index n i = nat (- i - 1)"
proof -
  assume a: "i < 0" "- int n \<le> i"
  have "i mod (2 * int n) = (i + 2 * int n) mod (2 * int n)" by simp
  also have "\<dots> = i + 2 * int n"
    using a by (intro mod_pos_pos_trivial) simp_all
  finally show ?thesis using a by (simp add: reflect_index_def)
qed

lemma reflect_index_after:
  "int n \<le> i \<Longrightarrow> i < 2 * int n \<Longrightarrow> reflect_index n i = nat (2 * int n - 1 - i)"
  by (simp add: reflect_index_def)

lemma reflect_index_nat: "k < n \<Longrightarrow> reflect_index n (int k) = k"
  by (simp add: reflect_index_def)

lemma upt5: "[0 ..< 5] = [0, 1, 2, 3, 4]"
  by (simp add: upt_rec)

lemma median_filter_nth:
  "i < length xs \<Longrightarrow> median_filter xs ! i =
     median5 (xs ! reflect_index (length xs) (int i - 2))
             (xs ! reflect_index (length xs) (int i - 1))
             (xs ! reflect_index (length xs) (int i))
             (xs ! reflect_index (length xs) (int i + 1))
             (xs ! reflect_index (length xs) (int i + 2))"
  by (simp add: median_filter_def upt5 median5_def add.commute del: sort_key_simps)

text \<open>
  C8 (amended). A series of 5 or fewer pitch values is left as it is. A longer one is
  replaced by a sliding median of window size 5 over the series extended by reflection
  at both ends: before the first entry come \<open>x[1], x[0]\<close>, after the last come
  \<open>x[n-1], x[n-2]\<close>. Every frame, the edge frames included, yields the median of five
  values, all of them entries of the series.
\<close>

theorem smooth_reflect_median:
  "(length xs \<le> 5 \<longrightarrow> smooth xs = xs) \<and>
   (5 < length xs \<longrightarrow>
      length (smooth xs) = length xs \<and>
      smooth xs ! 0 = median5 (xs ! 1) (xs ! 0) (xs ! 0) (xs ! 1) (xs ! 2) \<and>
      smooth xs ! 1 = median5 (xs ! 0) (xs ! 0) (xs ! 1) (xs ! 2) (xs ! 3) \<and>
      (\<forall>i. 2 \<le> i \<and> i + 2 < length xs \<longrightarrow>
         smooth xs ! i =
           median5 (xs ! (i - 2)) (xs ! (i - 1)) (xs ! i) (xs ! (i + 1)) (xs ! (i + 2))) \<and>
      smooth xs ! (length xs - 2) =
        median5 (xs ! (length xs - 4)) (xs ! (length xs - 3)) (xs ! (length xs - 2))
                (xs ! (length xs - 1)) (xs ! (length xs - 1)) \<and>
      smooth xs ! (length xs - 1) =
        median5 (xs ! (length xs - 3)) (xs ! (length xs - 2)) (xs ! (length xs - 1))
                (xs ! (length xs - 1)) (xs ! (length xs - 2)))"
proof (intro conjI impI)
  show "smooth xs = xs" if "length xs \<le> 5"
    using that by (simp add: smooth_def)
next
  assume n: "5 < length xs"
  then have sm: "smooth xs = median_filter xs" by (simp add: smooth_def)
  from n have ne: "xs \<noteq> []" by auto
  show "length (smooth xs) = length xs"
    by (simp add: sm median_filter_def)
  show "smooth xs ! 0 = median5 (xs ! 1) (xs ! 0) (xs ! 0) (xs ! 1) (xs ! 2)"
    using n ne by (simp add: sm median_filter_nth reflect_index_inside reflect_index_before)
  show "smooth xs ! 1 = median5 (xs ! 0) (xs ! 0) (xs ! 1) (xs ! 2) (xs ! 3)"
    using n ne by (simp add: sm median_filter_nth reflect_index_inside reflect_index_before)
  show "\<forall>i. 2 \<le> i \<and> i + 2 < length xs \<longrightarrow>
         smooth xs ! i =
           median5 (xs ! (i - 2)) (xs ! (i - 1)) (xs ! i) (xs ! (i + 1)) (xs ! (i + 2))"
  proof (intro allI impI)
    fix i assume i: "2 \<le> i \<and> i + 2 < length xs"
    then have e: "int i - 2 = int (i - 2)" "int i - 1 = int (i - 1)"
      "int i + 1 = int (i + 1)" "int i + 2 = int (i + 2)" by simp_all
    from i have r: "reflect_index (length xs) (int (i - 2)) = i - 2"
      "reflect_index (length xs) (int (i - 1)) = i - 1"
      "reflect_index (length xs) (int i) = i"
      "reflect_index (length xs) (int (i + 1)) = i + 1"
      "reflect_index (length xs) (int (i + 2)) = i + 2"
      by (intro reflect_index_nat; linarith)+
    from i have "i < length xs" by simp
    from median_filter_nth [OF this] show "smooth xs ! i =
           median5 (xs ! (i - 2)) (xs ! (i - 1)) (xs ! i) (xs ! (i + 1)) (xs ! (i + 2))"
      by (simp only: sm e r)
  qed
  define m where "m = length xs - 6"
  have len: "length xs = m + 6" using n by (simp add: m_def)
  show "smooth xs ! (length xs - 2) =
        median5 (xs ! (length xs - 4)) (xs ! (length xs - 3)) (xs ! (length xs - 2))
                (xs ! (length xs - 1)) (xs ! (length xs - 1))"
    by (simp add: sm median_filter_nth len reflect_index_inside reflect_index_after nat_add_distrib)
  show "smooth xs ! (length xs - 1) =
        median5 (xs ! (length xs - 3)) (xs ! (length xs - 2)) (xs ! (length xs - 1))
                (xs ! (length xs - 1)) (xs ! (length xs - 2))"
    by (simp add: sm median_filter_nth len reflect_index_inside reflect_index_after nat_add_distrib)
qed

theorem smooth_reflect_median_witness:
  "5 < length [9, 1, 2, 3, 4, 5, 0 :: real] \<and>
   smooth [9, 1, 2, 3, 4, 5, 0] ! 0 = 2 \<and>
   smooth [9, 1, 2, 3, 4, 5, 0] ! 1 = 3 \<and>
   (2 \<le> (3::nat) \<and> (3::nat) + 2 < length [9, 1, 2, 3, 4, 5, 0 :: real]) \<and>
   smooth [9, 1, 2, 3, 4, 5, 0] ! 3 = 3 \<and>
   smooth [9, 1, 2, 3, 4, 5, 0] ! 5 = 3 \<and>
   smooth [9, 1, 2, 3, 4, 5, 0] ! 6 = 4 \<and>
   length [7, 8, 9 :: real] \<le> 5 \<and> smooth [7, 8, 9] = [7, 8, 9]"
proof -
  let ?xs = "[9, 1, 2, 3, 4, 5, 0 :: real]"
  have l: "5 < length ?xs" and i: "2 \<le> (3::nat) \<and> (3::nat) + 2 < length ?xs"
    and s: "length [7, 8, 9 :: real] \<le> 5"
    by simp_all
  from smooth_reflect_median [of ?xs] l
  have f0: "smooth ?xs ! 0 = median5 (?xs ! 1) (?xs ! 0) (?xs ! 0) (?xs ! 1) (?xs ! 2)"
    and f1: "smooth ?xs ! 1 = median5 (?xs ! 0) (?xs ! 0) (?xs ! 1) (?xs ! 2) (?xs ! 3)"
    and mid: "\<forall>i. 2 \<le> i \<and> i + 2 < length ?xs \<longrightarrow>
         smooth ?xs ! i =
           median5 (?xs ! (i - 2)) (?xs ! (i - 1)) (?xs ! i) (?xs ! (i + 1)) (?xs ! (i + 2))"
    and f5: "smooth ?xs ! (length ?xs - 2) =
        median5 (?xs ! (length ?xs - 4)) (?xs ! (length ?xs - 3)) (?xs ! (length ?xs - 2))
                (?xs ! (length ?xs - 1)) (?xs ! (length ?xs - 1))"
    and f6: "smooth ?xs ! (length ?xs - 1) =
        median5 (?xs ! (length ?xs - 3)) (?xs ! (length ?xs - 2)) (?xs ! (length ?xs - 1))
                (?xs ! (length ?xs - 1)) (?xs ! (length ?xs - 2))"
    by blast+
  from mid i have f3: "smooth ?xs ! 3 =
      median5 (?xs ! (3 - 2)) (?xs ! (3 - 1)) (?xs ! 3) (?xs ! (3 + 1)) (?xs ! (3 + 2))"
    by blast
  from smooth_reflect_median [of "[7, 8, 9]"] s have t: "smooth [7, 8, 9 :: real] = [7, 8, 9]"
    by blast
  have "smooth ?xs ! 0 = 2" using f0 by (simp add: median5_def)
  moreover have "smooth ?xs ! 1 = 3" using f1 by (simp add: median5_def)
  moreover have "smooth ?xs ! 3 = 3" using f3 by (simp add: median5_def)
  moreover have "smooth ?xs ! 5 = 3" using f5 by (simp add: median5_def eval_nat_numeral)
  moreover have "smooth ?xs ! 6 = 4" using f6 by (simp add: median5_def eval_nat_numeral)
  ultimately show ?thesis using l i s t by blast
qed

subsection \<open>Feature extraction and the returned tuple\<close>

text \<open>What a successful run of the feature extraction has computed, and when it succeeds.\<close>

lemma features_Inr:
  assumes "features L y0 rate = Inr fs"
  shows "\<exists>y pitch_values peaks.
           normalize y0 = Inr y \<and>
           pitch_loop (piptrack L y rate 80 600) [] = Inr pitch_values \<and>
           rms L y \<noteq> [] \<and>
           (rate \<noteq> 0 \<or> length (effects_split L y 30) \<le> 1) \<and>
           filler_peaks L y = Inr peaks \<and>
           pitch_mean fs = (if smooth pitch_values = [] then 0 else np_mean (smooth pitch_values)) \<and>
           pitch_std fs = (if smooth pitch_values = [] then 0 else np_std (smooth pitch_values)) \<and>
           energy_mean fs = np_mean (rms L y) \<and>
           energy_std fs = np_std (rms L y) \<and>
           (pause_count fs, total_silence_duration fs) = detect_pauses (effects_split L y 30) rate \<and>
           filler_count fs = length peaks div 30"
proof -
  from assms obtain y where y: "normalize y0 = Inr y"
    by (auto simp: features_def split: sum.splits)
  from assms y obtain pv where pv: "pitch_loop (piptrack L y rate 80 600) [] = Inr pv"
    by (auto simp: features_def split: sum.splits)
  from assms y pv have e: "rms L y \<noteq> []"
    by (auto simp: features_def Let_def split: if_splits)
  from assms y pv e have r: "rate \<noteq> 0 \<or> length (effects_split L y 30) \<le> 1"
    by (auto simp: features_def Let_def split: if_splits)
  then have r': "\<not> (rate = 0 \<and> length (effects_split L y 30) > 1)" by auto
  obtain c t where d: "detect_pauses (effects_split L y 30) rate = (c, t)"
    by (cases "detect_pauses (effects_split L y 30) rate")
  from assms y pv e d obtain peaks where p: "filler_peaks L y = Inr peaks"
    by (auto simp: features_def Let_def split: if_splits sum.splits)
  from assms y pv e d p have
    "fs = \<lparr> pitch_mean = (if length (smooth pv) > 0 then np_mean (smooth pv) else 0),
            pitch_std = (if length (smooth pv) > 0 then np_std (smooth pv) else 0),
            energy_mean = np_mean (rms L y), energy_std = np_std (rms L y),
            pause_count = c, total_silence_duration = t,
            filler_count = length peaks div 30 \<rparr>"
    by (auto simp: features_def Let_def split: if_splits)
  with y pv e r d p show ?thesis by auto
qed

lemma features_eq:
  assumes "normalize y0 = Inr y"
    and "pitch_loop (piptrack L y rate 80 600) [] = Inr pv"
    and "rms L y \<noteq> []"
    and "rate \<noteq> 0 \<or> length (effects_split L y 30) \<le> 1"
    and "filler_peaks L y = Inr peaks"
  shows "features L y0 rate =
     Inr \<lparr> pitch_mean = (if smooth pv = [] then 0 else np_mean (smooth pv)),
           pitch_std = (if smooth pv = [] then 0 else np_std (smooth pv)),
           energy_mean = np_mean (rms L y), energy_std = np_std (rms L y),
           pause_count = fst (detect_pauses (effects_split L y 30) rate),
           total_silence_duration = snd (detect_pauses (effects_split L y 30) rate),
           filler_count = length peaks div 30 \<rparr>"
  using assms by (auto simp: features_def Let_def split: prod.splits)

lemma argmax_loop_bound: "best_i < i \<Longrightarrow> argmax_loop xs i best_i best < i + length xs"
proof (induction xs arbitrary: i best_i best)
  case Nil
  then show ?case by simp
next
  case (Cons x xs)
  have "argmax_loop xs (Suc i) i x < Suc i + length xs"
    by (intro Cons.IH) simp
  moreover have "argmax_loop xs (Suc i) best_i best < Suc i + length xs"
    using Cons.prems by (intro Cons.IH) simp
  ultimately show ?case by simp
qed

lemma np_argmax_bound: "xs \<noteq> [] \<Longrightarrow> \<exists>k < length xs. np_argmax xs = Inr k"
proof (cases xs)
  case Nil
  assume "xs \<noteq> []"
  with Nil show ?thesis by simp
next
  case (Cons x xs')
  from argmax_loop_bound [of 0 1 xs' x] show ?thesis by (simp add: Cons)
qed

lemma pitch_loop_total:
  "\<forall>frame \<in> set frames. frame \<noteq> [] \<Longrightarrow> \<exists>pv. pitch_loop frames acc = Inr pv"
proof (induction frames arbitrary: acc)
  case Nil
  show ?case by simp
next
  case (Cons frame frames)
  then have "frame \<noteq> []" by simp
  then obtain k where "np_argmax (map snd frame) = Inr k"
    using np_argmax_bound [of "map snd frame"] by auto
  with Cons show ?case by (simp add: Let_def)
qed

lemma analyze_voice_total:
  assumes "y0 \<noteq> []"
    and "\<And>y. \<forall>frame \<in> set (piptrack L y rate 80 600). frame \<noteq> []"
    and "\<And>y. y \<noteq> [] \<Longrightarrow> rms L y \<noteq> []"
    and "rate \<noteq> 0"
  shows "\<exists>r. analyze_voice L y0 rate = Inr r"
proof -
  from assms(1) obtain y where y: "normalize y0 = Inr y" and ne: "y \<noteq> []"
    by (auto simp: normalize_def np_max_Max)
  from pitch_loop_total [OF assms(2)] obtain pv
    where pv: "pitch_loop (piptrack L y rate 80 600) [] = Inr pv" by blast
  from ne have p: "filler_peaks L y =
      Inr (find_peaks L (convolve_valid (map abs y) (replicate 1000 (1 / 1000))) 0.01 1000)"
    by (simp add: filler_peaks_def np_convolve_valid_def)
  from assms(4) have r: "rate \<noteq> 0 \<or> length (effects_split L y 30) \<le> 1" by simp
  show ?thesis
    unfolding analyze_voice_def features_eq [OF y pv assms(3) [OF ne] r p] by simp
qed

lemma analyze_voice_result:
  assumes "analyze_voice L y rate = Inr r"
  shows "confidence_score r =
           confidence_score_of (res_pitch_std r) (res_energy_mean r)
                               (res_filler_count r) (res_pause_count r)"
    and "confidence_level r = confidence_level_of (confidence_score r)"
    and "suggestions r =
           suggestions_of (res_pitch_std r) (res_energy_mean r)
                          (res_filler_count r) (res_pause_count r)"
proof -
  from assms obtain fs where "r = assess fs"
    by (auto simp: analyze_voice_def split: sum.splits)
  then show "confidence_score r =
           confidence_score_of (res_pitch_std r) (res_energy_mean r)
                               (res_filler_count r) (res_pause_count r)"
    and "confidence_level r = confidence_level_of (confidence_score r)"
    and "suggestions r =
           suggestions_of (res_pitch_std r) (res_energy_mean r)
                          (res_filler_count r) (res_pause_count r)"
    by (simp_all add: assess_def Let_def)
qed

subsection \<open>Filler count\<close>

lemma voiced_normalize: "normalize [1, - 1] = Inr [100000 / 100001, - (100000 / 100001)]"
  by (simp add: normalize_def)

lemma voiced_peaks:
  "filler_peaks (voiced_libs k) [100000 / 100001, - (100000 / 100001)]
     = Inr (map (\<lambda>j. 1000 * j) [0 ..< k])"
  by (simp add: filler_peaks_def np_convolve_valid_def voiced_libs_def)

lemma features_voiced:
  "features (voiced_libs k) [1, - 1] 22050 =
     Inr \<lparr> pitch_mean = 120, pitch_std = 0, energy_mean = 0.1, energy_std = 0,
           pause_count = 1, total_silence_duration = 20 / 49, filler_count = k div 30 \<rparr>"
proof -
  have pl: "pitch_loop (piptrack (voiced_libs k) [100000 / 100001, - (100000 / 100001)] 22050 80 600) []
      = Inr [120, 120]"
    by (simp add: voiced_libs_def)
  have e: "rms (voiced_libs k) [100000 / 100001, - (100000 / 100001)] \<noteq> []"
    by (simp add: voiced_libs_def)
  have r: "(22050::int) \<noteq> 0 \<or>
      length (effects_split (voiced_libs k) [100000 / 100001, - (100000 / 100001)] 30) \<le> 1"
    by simp
  show ?thesis
    unfolding features_eq [OF voiced_normalize pl e r voiced_peaks]
    by (simp add: smooth_def np_mean_def np_std_def voiced_libs_def detect_pauses_closed
          adjacent_gaps_def)
qed

text \<open>
  C9. For every input buffer on which the feature extraction succeeds, the filler count
  is the number of envelope peaks found, integer-divided by 30. Fewer than 30 peaks give
  the filler count 0, and the filler-word suggestion appears only when at least 90 peaks
  were found.
\<close>

theorem filler_count_peaks_div_30:
  assumes "features L y0 rate = Inr fs"
  shows "\<exists>y peaks. normalize y0 = Inr y \<and> filler_peaks L y = Inr peaks \<and>
           filler_count fs = length peaks div 30 \<and>
           (length peaks < 30 \<longrightarrow> filler_count fs = 0) \<and>
           (msg_filler \<in> set (suggestions (assess fs)) \<longrightarrow> 90 \<le> length peaks)"
proof -
  from features_Inr [OF assms] obtain y peaks where
    y: "normalize y0 = Inr y" and p: "filler_peaks L y = Inr peaks"
    and f: "filler_count fs = length peaks div 30"
    by blast
  have small: "filler_count fs = 0" if "length peaks < 30"
    using that by (simp add: f)
  have "90 \<le> length peaks" if "msg_filler \<in> set (suggestions (assess fs))"
  proof -
    from that have "3 \<le> filler_count fs"
      using msgs_distinct by (auto simp add: assess_def Let_def suggestions_of_def split: if_splits)
    then show ?thesis by (simp add: f)
  qed
  with y p f small show ?thesis by blast
qed

theorem filler_count_peaks_div_30_witness:
  "features (voiced_libs 12) [1, - 1] 22050 =
     Inr \<lparr> pitch_mean = 120, pitch_std = 0, energy_mean = 0.1, energy_std = 0,
           pause_count = 1, total_silence_duration = 20 / 49, filler_count = 0 \<rparr> \<and>
   features (voiced_libs 95) [1, - 1] 22050 =
     Inr \<lparr> pitch_mean = 120, pitch_std = 0, energy_mean = 0.1, energy_std = 0,
           pause_count = 1, total_silence_duration = 20 / 49, filler_count = 3 \<rparr> \<and>
   msg_filler \<in> set (suggestions (assess
     \<lparr> pitch_mean = 120, pitch_std = 0, energy_mean = 0.1, energy_std = 0,
       pause_count = 1, total_silence_duration = 20 / 49, filler_count = 3 \<rparr>)) \<and>
   (\<exists>y peaks. normalize [1, - 1] = Inr y \<and> filler_peaks (voiced_libs 12) y = Inr peaks \<and>
      length peaks < 30) \<and>
   (\<exists>y peaks. normalize [1, - 1] = Inr y \<and> filler_peaks (voiced_libs 95) y = Inr peaks \<and>
      90 \<le> length peaks)"
proof -
  let ?fs = "\<lambda>c. \<lparr> pitch_mean = 120, pitch_std = 0, energy_mean = 0.1, energy_std = 0,
           pause_count = 1, total_silence_duration = 20 / 49, filler_count = c \<rparr>"
  have a: "features (voiced_libs 12) [1, - 1] 22050 = Inr (?fs 0)"
    by (simp add: features_voiced)
  have b: "features (voiced_libs 95) [1, - 1] 22050 = Inr (?fs 3)"
    by (simp add: features_voiced)
  have m: "msg_filler \<in> set (suggestions (assess (?fs 3)))"
    by (simp add: assess_def suggestions_of_def Let_def)
  from filler_count_peaks_div_30 [OF a]
  have lo: "\<exists>y peaks. normalize [1, - 1] = Inr y \<and> filler_peaks (voiced_libs 12) y = Inr peaks \<and>
      length peaks < 30"
    by (auto simp: voiced_normalize voiced_peaks)
  from filler_count_peaks_div_30 [OF b] m
  have hi: "\<exists>y peaks. normalize [1, - 1] = Inr y \<and> filler_peaks (voiced_libs 95) y = Inr peaks \<and>
      90 \<le> length peaks"
    by blast
  from a b m lo hi show ?thesis by blast
qed

subsection \<open>A silent buffer\<close>

lemma normalize_zeros: "0 < n \<Longrightarrow> normalize (replicate n 0) = Inr (replicate n 0)"
proof -
  assume n: "0 < n"
  then have "np_max (map abs (replicate n (0::real))) = Inr 0"
    by (simp add: np_max_Max)
  then show ?thesis by (simp add: normalize_def)
qed

lemma pitch_loop_no_pitch:
  "\<forall>frame \<in> set frames. frame \<noteq> [] \<and> (\<forall>b \<in> set frame. fst b = 0)
     \<Longrightarrow> pitch_loop frames acc = Inr acc"
proof (induction frames arbitrary: acc)
  case Nil
  show ?case by simp
next
  case (Cons frame frames)
  then have ne: "frame \<noteq> []" and z: "\<forall>b \<in> set frame. fst b = 0" by simp_all
  from ne obtain k where k: "k < length frame" and a: "np_argmax (map snd frame) = Inr k"
    using np_argmax_bound [of "map snd frame"] by auto
  from k z have "fst (frame ! k) = 0" by simp
  with a Cons show ?case by simp
qed

lemma sum_list_zeros: "\<forall>e \<in> set es. e = (0::real) \<Longrightarrow> sum_list es = 0"
  by (induction es) simp_all

lemma mean_std_zeros:
  assumes "\<forall>e \<in> set es. e = (0::real)"
  shows "np_mean es = 0" and "np_std es = 0"
proof -
  show m: "np_mean es = 0" using assms by (simp add: np_mean_def sum_list_zeros)
  have "sum_list (map (\<lambda>x. (x - np_mean es)\<^sup>2) es) = 0"
    using assms by (intro sum_list_zeros) (simp add: m)
  then show "np_std es = 0" by (simp add: np_std_def np_mean_def)
qed

lemma sum_products_zero:
  "(\<forall>x \<in> set xs. x = (0::real)) \<or> (\<forall>y \<in> set ys. y = 0) \<Longrightarrow> sum_list (map2 (*) xs ys) = 0"
  by (intro sum_list_zeros) (auto dest: set_zip_leftD set_zip_rightD)

lemma convolve_valid_zeros:
  assumes "\<forall>x \<in> set a. x = 0"
  shows "\<forall>s \<in> set (convolve_valid a v). s = 0"
proof (cases "length v > length a")
  case True
  have "sum_list (map2 (*) (take (length a) (drop k v)) (rev a)) = 0" for k
    using assms by (intro sum_products_zero) simp
  with True show ?thesis by (auto simp add: convolve_valid_def simp del: upt_Suc)
next
  case False
  have "sum_list (map2 (*) (take (length v) (drop k a)) (rev v)) = 0" for k
  proof (intro sum_products_zero disjI1 ballI)
    fix x assume "x \<in> set (take (length v) (drop k a))"
    then have "x \<in> set a" by (meson in_set_dropD in_set_takeD)
    with assms show "x = 0" by simp
  qed
  with False show ?thesis by (auto simp add: convolve_valid_def simp del: upt_Suc)
qed

lemma filler_peaks_zeros:
  assumes "0 < n"
    and "\<forall>x height distance. \<forall>i \<in> set (find_peaks L x height distance).
           i < length x \<and> height \<le> x ! i"
  shows "filler_peaks L (replicate n 0) = Inr []"
proof -
  let ?sm = "convolve_valid (map abs (replicate n 0)) (replicate 1000 (1 / 1000))"
  have z: "\<forall>s \<in> set ?sm. s = 0" by (intro convolve_valid_zeros) simp
  have "find_peaks L ?sm 0.01 1000 = []"
  proof (rule ccontr)
    assume "find_peaks L ?sm 0.01 1000 \<noteq> []"
    then obtain i where "i \<in> set (find_peaks L ?sm 0.01 1000)"
      by (cases "find_peaks L ?sm 0.01 1000") auto
    with assms(2) have i: "i < length ?sm" and h: "0.01 \<le> ?sm ! i" by blast+
    from i z have "?sm ! i = 0" by (meson nth_mem)
    with h show False by simp
  qed
  with assms(1) show ?thesis by (simp add: filler_peaks_def np_convolve_valid_def)
qed

lemma features_silent:
  assumes "0 < n"
    and "\<forall>frame \<in> set (piptrack L (replicate n 0) 22050 80 600).
           frame \<noteq> [] \<and> (\<forall>b \<in> set frame. fst b = 0)"
    and "rms L (replicate n 0) \<noteq> [] \<and> (\<forall>e \<in> set (rms L (replicate n 0)). e = 0)"
    and "length (effects_split L (replicate n 0) 30) \<le> 1"
    and "\<forall>x height distance. \<forall>i \<in> set (find_peaks L x height distance).
           i < length x \<and> height \<le> x ! i"
  shows "features L (replicate n 0) 22050 =
     Inr \<lparr> pitch_mean = 0, pitch_std = 0, energy_mean = 0, energy_std = 0,
           pause_count = 0, total_silence_duration = 0, filler_count = 0 \<rparr>"
proof -
  let ?z = "replicate n (0::real)"
  have y: "normalize ?z = Inr ?z" using assms(1) by (rule normalize_zeros)
  have pv: "pitch_loop (piptrack L ?z 22050 80 600) [] = Inr []"
    using assms(2) by (rule pitch_loop_no_pitch)
  from assms(3) have e: "rms L ?z \<noteq> []" and ez: "\<forall>e \<in> set (rms L ?z). e = 0"
    by simp_all
  have r: "(22050::int) \<noteq> 0 \<or> length (effects_split L ?z 30) \<le> 1" by simp
  have p: "filler_peaks L ?z = Inr []" using assms(1,5) by (rule filler_peaks_zeros)
  have d: "detect_pauses (effects_split L ?z 30) 22050 = (0, 0)"
    using assms(4) by (rule detect_pauses_short)
  show ?thesis
    unfolding features_eq [OF y pv e r p]
    by (simp add: smooth_def mean_std_zeros [OF ez] d)
qed

text \<open>
  C6. For an all-zero buffer of any positive length at rate 22050, with library routines
  that answer on silence as librosa and SciPy do (no pitch in any frame, zero energy in
  every frame, at most one non-silent interval, peaks only at samples that reach the
  required height), the body returns pitch mean 0, pitch standard deviation 0, energy
  mean 0, energy standard deviation 0, pause count 0, filler count 0, the score 75 and
  the level "Confident".
\<close>

theorem silence_scores_75:
  assumes "0 < n"
    and "\<forall>frame \<in> set (piptrack L (replicate n 0) 22050 80 600).
           frame \<noteq> [] \<and> (\<forall>b \<in> set frame. fst b = 0)"
    and "rms L (replicate n 0) \<noteq> [] \<and> (\<forall>e \<in> set (rms L (replicate n 0)). e = 0)"
    and "length (effects_split L (replicate n 0) 30) \<le> 1"
    and "\<forall>x height distance. \<forall>i \<in> set (find_peaks L x height distance).
           i < length x \<and> height \<le> x ! i"
  shows "analyze_voice L (replicate n 0) 22050 =
     Inr \<lparr> confidence_level = ''Confident'', confidence_score = 75,
           suggestions = [msg_pitch, msg_energy],
           res_pitch_mean = 0, res_pitch_std = 0, res_energy_mean = 0, res_energy_std = 0,
           res_pause_count = 0, res_filler_count = 0 \<rparr>"
proof -
  have s: "confidence_score_of 0 0 0 0 = 75"
    by (simp add: confidence_score_of_def np_clip_def)
  show ?thesis
    unfolding analyze_voice_def features_silent [OF assms]
    by (simp add: assess_def s confidence_level_of_def suggestions_of_def)
qed

theorem silence_scores_75_witness:
  "0 < (3::nat) \<and>
   list_all (\<lambda>frame. frame \<noteq> [] \<and> list_all (\<lambda>b. fst b = 0) frame)
     (piptrack silent_libs (replicate 3 0) 22050 80 600) \<and>
   rms silent_libs (replicate 3 0) = [0, 0] \<and>
   effects_split silent_libs (replicate 3 0) 30 = [(0, 3)] \<and>
   (\<forall>x height distance.
      list_all (\<lambda>i. i < length x \<and> height \<le> x ! i)
        (find_peaks silent_libs x height distance)) \<and>
   analyze_voice silent_libs (replicate 3 0) 22050 =
     Inr \<lparr> confidence_level = ''Confident'', confidence_score = 75,
           suggestions = [msg_pitch, msg_energy],
           res_pitch_mean = 0, res_pitch_std = 0, res_energy_mean = 0, res_energy_std = 0,
           res_pause_count = 0, res_filler_count = 0 \<rparr>"
proof -
  have h1: "0 < (3::nat)" by simp
  have f: "list_all (\<lambda>frame. frame \<noteq> [] \<and> list_all (\<lambda>b. fst b = 0) frame)
     (piptrack silent_libs (replicate 3 0) 22050 80 600)"
    by (simp add: silent_libs_def list_all_iff)
  have e: "rms silent_libs (replicate 3 0) = [0, 0]"
    by (simp add: silent_libs_def)
  have s: "effects_split silent_libs (replicate 3 0) 30 = [(0, 3)]"
    by (simp add: silent_libs_def)
  have p: "\<forall>x height distance.
      list_all (\<lambda>i. i < length x \<and> height \<le> x ! i)
        (find_peaks silent_libs x height distance)"
    by (simp add: silent_libs_def list_all_iff)
  have h2: "\<forall>frame \<in> set (piptrack silent_libs (replicate 3 0) 22050 80 600).
      frame \<noteq> [] \<and> (\<forall>b \<in> set frame. fst b = 0)"
    using f by (simp add: list_all_iff)
  have h3: "rms silent_libs (replicate 3 0) \<noteq> [] \<and>
      (\<forall>e \<in> set (rms silent_libs (replicate 3 0)). e = 0)"
    by (simp add: e)
  have h4: "length (effects_split silent_libs (replicate 3 0) 30) \<le> 1"
    by (simp add: s)
  have h5: "\<forall>x height distance. \<forall>i \<in> set (find_peaks silent_libs x height distance).
      i < length x \<and> height \<le> x ! i"
    using p by (simp add: list_all_iff)
  from h1 f e s p silence_scores_75 [OF h1 h2 h3 h4 h5] show ?thesis by blast
qed

end
